theory Spec2Isabelle
  imports Main "HOL-Library.AList"
begin

section \<open>Values, strings and exceptions\<close>

text \<open>
  The dictionaries that \<^verbatim>\<open>calrissian/job.py\<close> builds (volumes, volume mounts, environment
  entries, the Job manifest) hold strings, booleans, lists and further dictionaries. A
  Python \<^verbatim>\<open>dict\<close> keeps its keys in insertion order, so a dictionary is an association
  list; \<^verbatim>\<open>d[k] = v\<close> is \<open>AList.update k v d\<close>, which overwrites the value of a key that is
  present where it stands and appends a new key at the end.
\<close>

datatype pyval =
    Str string
  | Bool bool
  | List "pyval list"
  | Dict "(string \<times> pyval) list"

type_synonym pydict = "(string \<times> pyval) list"

text \<open>
  The exceptions that the modelled code raises, and \<^verbatim>\<open>WorkflowException\<close>, with which
  the workflow engine's output collection fails.
\<close>

datatype exn =
    VolumeBuilderException string
  | KeyError string
  | WorkflowException string

text \<open>
  Reading a manifest along a path of keys, as in \<^verbatim>\<open>spec.template.spec.restartPolicy\<close>:
  \<open>None\<close> when a key is missing or the value on the way is no dictionary.
\<close>

fun lookup_path :: "pyval \<Rightarrow> string list \<Rightarrow> pyval option" where
  "lookup_path v [] = Some v"
| "lookup_path (Dict kvs) (k # ks) =
     (case map_of kvs k of None \<Rightarrow> None | Some v \<Rightarrow> lookup_path v ks)"
| "lookup_path (Str s) (k # ks) = None"
| "lookup_path (Bool b) (k # ks) = None"
| "lookup_path (List xs) (k # ks) = None"

text \<open>\<^verbatim>\<open>s.startswith(p)\<close>.\<close>

fun startswith :: "string \<Rightarrow> string \<Rightarrow> bool" where
  "startswith s [] = True"
| "startswith [] (p # ps) = False"
| "startswith (c # s) (p # ps) = (c = p \<and> startswith s ps)"

text \<open>\<^verbatim>\<open>sep.join(xs)\<close>.\<close>

fun join :: "string \<Rightarrow> string list \<Rightarrow> string" where
  "join sep [] = []"
| "join sep [x] = x"
| "join sep (x # y # ys) = x @ sep @ join sep (y # ys)"

text \<open>\<^verbatim>\<open>s.replace(old, new)\<close> for one-character \<^verbatim>\<open>old\<close> and \<^verbatim>\<open>new\<close>.\<close>

definition replace_char :: "char \<Rightarrow> char \<Rightarrow> string \<Rightarrow> string" where
  "replace_char old new s = map (\<lambda>c. if c = old then new else c) s"

definition ascii_uppercase :: string where
  "ascii_uppercase = ''ABCDEFGHIJKLMNOPQRSTUVWXYZ''"

definition ascii_lowercase :: string where
  "ascii_lowercase = ''abcdefghijklmnopqrstuvwxyz''"

section \<open>Kubernetes names\<close>

text \<open>\<^verbatim>\<open>k8s_safe_name(name)\<close>: \<^verbatim>\<open>name.replace('_', '-')\<close>.\<close>

definition k8s_safe_name :: "string \<Rightarrow> string" where
  "k8s_safe_name name = replace_char (CHR ''_'') (CHR ''-'') name"

text \<open>
  The DNS-1123 subdomain pattern quoted in the docstring of \<^verbatim>\<open>k8s_safe_name\<close>,
  \<^verbatim>\<open>[a-z0-9]([-a-z0-9]*[a-z0-9])?(\.[a-z0-9]([-a-z0-9]*[a-z0-9])?)*\<close>:
  labels separated by dots; a label is not empty, is made of lower-case alphanumerics
  and \<^verbatim>\<open>-\<close>, and starts and ends with an alphanumeric.
\<close>

definition lower_alnum :: "char \<Rightarrow> bool" where
  "lower_alnum c = (c \<in> set (ascii_lowercase @ ''0123456789''))"

definition dns1123_chars :: "string \<Rightarrow> bool" where
  "dns1123_chars s = list_all (\<lambda>c. lower_alnum c \<or> c = CHR ''-'' \<or> c = CHR ''.'') s"

definition dns1123_label :: "string \<Rightarrow> bool" where
  "dns1123_label l =
     (l \<noteq> [] \<and> lower_alnum (hd l) \<and> lower_alnum (last l) \<and>
      list_all (\<lambda>c. lower_alnum c \<or> c = CHR ''-'') l)"

fun split_dots :: "string \<Rightarrow> string list" where
  "split_dots [] = [[]]"
| "split_dots (c # s) =
     (if c = CHR ''.'' then [] # split_dots s
      else (case split_dots s of [] \<Rightarrow> [[c]] | l # ls \<Rightarrow> (c # l) # ls))"

definition dns1123_subdomain :: "string \<Rightarrow> bool" where
  "dns1123_subdomain s = list_all dns1123_label (split_dots s)"

section \<open>KubernetesVolumeBuilder\<close>

text \<open>
  An entry of \<^verbatim>\<open>persistent_volume_entries\<close> is the dictionary
  \<^verbatim>\<open>{'prefix': prefix, 'volume': {'persistentVolumeClaim': {'claimName': claim_name}}}\<close>;
  only \<^verbatim>\<open>add_persistent_volume_entry\<close> creates one, so its two keys are the fields of a
  record. The volume stays a dictionary: \<^verbatim>\<open>add_volume_binding\<close> copies it and stores a
  name in the copy.
\<close>

record pv_entry =
  prefix :: string
  volume :: pydict

record KubernetesVolumeBuilder =
  persistent_volume_entries :: "(string \<times> pv_entry) list"
  volume_mounts :: "pydict list"
  volumes :: "pydict list"

definition add_persistent_volume_entry ::
  "KubernetesVolumeBuilder \<Rightarrow> string \<Rightarrow> string \<Rightarrow> KubernetesVolumeBuilder" where
  "add_persistent_volume_entry self prefix' claim_name =
     self\<lparr>persistent_volume_entries :=
       AList.update prefix'
         \<lparr>prefix = prefix',
          volume = [(''persistentVolumeClaim'', Dict [(''claimName'', Str claim_name)])]\<rparr>
         (persistent_volume_entries self)\<rparr>"

definition populate_demo_values :: "KubernetesVolumeBuilder \<Rightarrow> KubernetesVolumeBuilder" where
  "populate_demo_values self =
     (let self = add_persistent_volume_entry self ''/calrissian/input-data'' ''calrissian-input-data'';
          self = add_persistent_volume_entry self ''/calrissian/output-data'' ''calrissian-output-data'';
          self = add_persistent_volume_entry self ''/calrissian/tmptmp'' ''calrissian-tmp'';
          self = add_persistent_volume_entry self ''/calrissian/tmpout'' ''calrissian-tmpout'';
          self = add_persistent_volume_entry self ''/Users/dcl9/Code/k8s/calrissian/cwl/tmp/out'' ''local-tmpout'';
          self = add_persistent_volume_entry self ''/Users/dcl9/Code/k8s/calrissian/cwl/tmp/tmp'' ''local-tmp'';
          self = add_persistent_volume_entry self ''/Users/dcl9/Code/k8s/calrissian/cwl/'' ''local''
      in self)"

text \<open>\<^verbatim>\<open>KubernetesVolumeBuilder()\<close>: the constructor.\<close>

definition new_KubernetesVolumeBuilder :: KubernetesVolumeBuilder where
  "new_KubernetesVolumeBuilder =
     (populate_demo_values
        \<lparr>persistent_volume_entries = [], volume_mounts = [], volumes = []\<rparr>)
      \<lparr>volume_mounts := [], volumes := []\<rparr>"

text \<open>
  The loop of \<^verbatim>\<open>find_persistent_volume\<close> over \<^verbatim>\<open>persistent_volume_entries.items()\<close>:
  the first entry whose key is a prefix of the source, \<open>None\<close> when the loop ends.
\<close>

fun find_in_items :: "(string \<times> pv_entry) list \<Rightarrow> string \<Rightarrow> pv_entry option" where
  "find_in_items [] source = None"
| "find_in_items ((prefix', entry) # items) source =
     (if startswith source prefix' then Some entry else find_in_items items source)"

definition find_persistent_volume :: "KubernetesVolumeBuilder \<Rightarrow> string \<Rightarrow> pv_entry option" where
  "find_persistent_volume self source = find_in_items (persistent_volume_entries self) source"

definition calculate_subpath :: "string \<Rightarrow> string \<Rightarrow> string" where
  "calculate_subpath source prefix' = drop (length prefix') source"

text \<open>
  \<^verbatim>\<open>random_tag(length)\<close> joins the list that
  \<^verbatim>\<open>random.choices(string.ascii_uppercase + string.ascii_lowercase, k=length)\<close> returns.
  The list drawn is the argument \<open>choices\<close>; \<open>is_choices population k choices\<close> says that
  it is one that \<^verbatim>\<open>random.choices(population, k=k)\<close> can return: \<open>k\<close> one-character
  strings, each a character of the population.
\<close>

definition is_choices :: "string \<Rightarrow> nat \<Rightarrow> string list \<Rightarrow> bool" where
  "is_choices population k choices =
     (length choices = k \<and> list_all (\<lambda>s. s \<in> set (map (\<lambda>c. [c]) population)) choices)"

definition random_tag :: "nat \<Rightarrow> string list \<Rightarrow> string" where
  "random_tag len choices = join [] choices"

definition is_random_tag_draw :: "string list \<Rightarrow> bool" where
  "is_random_tag_draw choices = is_choices (ascii_uppercase @ ascii_lowercase) 8 choices"

text \<open>\<^verbatim>\<open>'{}-{}-{}'.format(base_name, note, tag)\<close>, made safe.\<close>

definition binding_name :: "string \<Rightarrow> string \<Rightarrow> string \<Rightarrow> string" where
  "binding_name base_name note tag = k8s_safe_name (base_name @ ''-'' @ note @ ''-'' @ tag)"

text \<open>
  \<^verbatim>\<open>add_volume_binding\<close> returns nothing and changes the builder, or raises. The model
  returns the outcome together with the builder as the call leaves it, so that what an
  exception leaves behind is part of the result.
\<close>

definition add_volume_binding ::
  "KubernetesVolumeBuilder \<Rightarrow> string \<Rightarrow> string \<Rightarrow> string \<Rightarrow> string \<Rightarrow> bool \<Rightarrow> string list
     \<Rightarrow> (exn + unit) \<times> KubernetesVolumeBuilder" where
  "add_volume_binding self base_name source target note writable choices =
     (case find_persistent_volume self source of
        None \<Rightarrow>
          (Inl (VolumeBuilderException
                  (''Could not find a persistent volume mounted for '' @ source)), self)
      | Some pv \<Rightarrow>
          (let name = binding_name base_name note (random_tag 8 choices);
               volume' = AList.update ''name'' (Str name) (volume pv);
               self = self\<lparr>volumes := volumes self @ [volume']\<rparr>;
               volume_mount =
                 [(''name'', Str name),
                  (''mountPath'', Str target),
                  (''subPath'', Str (calculate_subpath source (prefix pv))),
                  (''readOnly'', Bool (\<not> writable))];
               self = self\<lparr>volume_mounts := volume_mounts self @ [volume_mount]\<rparr>
           in (Inr (), self)))"

text \<open>
  Successive calls of \<^verbatim>\<open>add_volume_binding\<close> within one execution, all with the job's
  name as base name and with one note, as \<^verbatim>\<open>create_kubernetes_runtime\<close> and the
  \<^verbatim>\<open>add_*_volume\<close> methods make them through \<^verbatim>\<open>_add_volume_binding\<close>. A request is
  (source, target, writable, the random draw of the call). An exception ends the sequence.
\<close>

fun add_volume_bindings ::
  "KubernetesVolumeBuilder \<Rightarrow> string \<Rightarrow> string \<Rightarrow> (string \<times> string \<times> bool \<times> string list) list
     \<Rightarrow> (exn + unit) \<times> KubernetesVolumeBuilder" where
  "add_volume_bindings self base_name note [] = (Inr (), self)"
| "add_volume_bindings self base_name note ((source, target, writable, choices) # requests) =
     (case add_volume_binding self base_name source target note writable choices of
        (Inl e, self') \<Rightarrow> (Inl e, self')
      | (Inr u, self') \<Rightarrow> add_volume_bindings self' base_name note requests)"

text \<open>
  The states of a volume builder: the constructor's, and what the two methods that write
  to it leave behind (an \<^verbatim>\<open>add_volume_binding\<close> that raised included).
\<close>

inductive builder_state :: "KubernetesVolumeBuilder \<Rightarrow> bool" where
  constructed: "builder_state new_KubernetesVolumeBuilder"
| entry_added: "builder_state self \<Longrightarrow> builder_state (add_persistent_volume_entry self p c)"
| binding_added:
    "builder_state self \<Longrightarrow>
     builder_state (snd (add_volume_binding self base_name source target note writable choices))"

subsection \<open>Registration, in the words of the properties\<close>

text \<open>
  The entry that \<^verbatim>\<open>add_persistent_volume_entry(p, c)\<close> stores under the key \<open>p\<close>.
\<close>

definition pv_entry_of :: "string \<Rightarrow> string \<Rightarrow> pv_entry" where
  "pv_entry_of p c =
     \<lparr>prefix = p, volume = [(''persistentVolumeClaim'', Dict [(''claimName'', Str c)])]\<rparr>"

text \<open>
  An entry with prefix \<open>p\<close> and claim name \<open>c\<close> is registered on a builder when the
  dictionary holds that entry under \<open>p\<close>; the prefixes registered before it are the keys
  that precede \<open>p\<close> in the dictionary's order.
\<close>

definition registered :: "KubernetesVolumeBuilder \<Rightarrow> string \<Rightarrow> string \<Rightarrow> bool" where
  "registered self p c \<longleftrightarrow> map_of (persistent_volume_entries self) p = Some (pv_entry_of p c)"

definition registered_before :: "KubernetesVolumeBuilder \<Rightarrow> string \<Rightarrow> string list" where
  "registered_before self p = takeWhile (\<lambda>q. q \<noteq> p) (map fst (persistent_volume_entries self))"

text \<open>
  The builder as \<^verbatim>\<open>__init__\<close> has it before \<^verbatim>\<open>populate_demo_values\<close> runs, and a
  sequence of calls of \<^verbatim>\<open>add_persistent_volume_entry\<close>, in order.
\<close>

definition empty_builder :: KubernetesVolumeBuilder where
  "empty_builder = \<lparr>persistent_volume_entries = [], volume_mounts = [], volumes = []\<rparr>"

fun register_all :: "KubernetesVolumeBuilder \<Rightarrow> (string \<times> string) list \<Rightarrow> KubernetesVolumeBuilder" where
  "register_all self [] = self"
| "register_all self ((p, c) # regs) = register_all (add_persistent_volume_entry self p c) regs"

definition demo_values :: "(string \<times> string) list" where
  "demo_values =
     [(''/calrissian/input-data'', ''calrissian-input-data''),
      (''/calrissian/output-data'', ''calrissian-output-data''),
      (''/calrissian/tmptmp'', ''calrissian-tmp''),
      (''/calrissian/tmpout'', ''calrissian-tmpout''),
      (''/Users/dcl9/Code/k8s/calrissian/cwl/tmp/out'', ''local-tmpout''),
      (''/Users/dcl9/Code/k8s/calrissian/cwl/tmp/tmp'', ''local-tmp''),
      (''/Users/dcl9/Code/k8s/calrissian/cwl/'', ''local'')]"

text \<open>The names that the volumes and the volume mounts of a builder carry, in order.\<close>

definition volume_names :: "KubernetesVolumeBuilder \<Rightarrow> pyval option list" where
  "volume_names self = map (\<lambda>d. map_of d ''name'') (volumes self)"

definition mount_names :: "KubernetesVolumeBuilder \<Rightarrow> pyval option list" where
  "mount_names self = map (\<lambda>d. map_of d ''name'') (volume_mounts self)"

text \<open>
  The invariant of the two sequences: position by position the same name, and every
  volume has one.
\<close>

definition names_aligned :: "KubernetesVolumeBuilder \<Rightarrow> bool" where
  "names_aligned self \<longleftrightarrow>
     volume_names self = mount_names self \<and> None \<notin> set (volume_names self)"

text \<open>The tag and the draw of a request of \<open>add_volume_bindings\<close>.\<close>

fun request_draw :: "string \<times> string \<times> bool \<times> string list \<Rightarrow> string list" where
  "request_draw (source, target, writable, choices) = choices"

definition request_tag :: "string \<times> string \<times> bool \<times> string list \<Rightarrow> string" where
  "request_tag r = random_tag 8 (request_draw r)"

section \<open>KubernetesJobBuilder\<close>

text \<open>
  The fields \<^verbatim>\<open>volume_mounts\<close> and \<^verbatim>\<open>volumes\<close> of the job builder are named
  \<open>job_volume_mounts\<close> and \<open>job_volumes\<close> here, the volume builder has fields of the same
  names. \<^verbatim>\<open>environment\<close> is a dictionary of strings, in insertion order; the three
  redirection targets are a string or \<^verbatim>\<open>None\<close>.
\<close>

record KubernetesJobBuilder =
  name :: string
  container_image :: string
  environment :: "(string \<times> string) list"
  job_volume_mounts :: "pydict list"
  job_volumes :: "pydict list"
  command_line :: "string list"
  stdout :: "string option"
  stderr :: "string option"
  stdin :: "string option"

definition job_name :: "KubernetesJobBuilder \<Rightarrow> string" where
  "job_name self = k8s_safe_name (name self @ ''-job'')"

definition container_name :: "KubernetesJobBuilder \<Rightarrow> string" where
  "container_name self = k8s_safe_name (name self @ ''-container'')"

definition container_command :: "KubernetesJobBuilder \<Rightarrow> string list" where
  "container_command self = [''/bin/sh'', ''-c'']"

text \<open>\<^verbatim>\<open>if x:\<close> on a string or \<^verbatim>\<open>None\<close>: false for \<^verbatim>\<open>None\<close> and for the empty string.\<close>

fun truthy :: "string option \<Rightarrow> bool" where
  "truthy None = False"
| "truthy (Some s) = (s \<noteq> [])"

definition container_args :: "KubernetesJobBuilder \<Rightarrow> string list" where
  "container_args self =
     (let job_command = command_line self;
          job_command = (if truthy (stdout self)
                         then job_command @ [''>'', the (stdout self)] else job_command);
          job_command = (if truthy (stderr self)
                         then job_command @ [''2>'', the (stderr self)] else job_command);
          job_command = (if truthy (stdin self)
                         then job_command @ [''<'', the (stdin self)] else job_command)
      in [join '' '' job_command])"

text \<open>The loop of \<^verbatim>\<open>container_environment\<close> over \<^verbatim>\<open>self.environment.items()\<close>.\<close>

fun environment_loop :: "pydict list \<Rightarrow> (string \<times> string) list \<Rightarrow> pydict list" where
  "environment_loop environment' [] = environment'"
| "environment_loop environment' ((name', value') # items) =
     environment_loop (environment' @ [[(''name'', Str name'), (''value'', Str value')]]) items"

definition container_environment :: "KubernetesJobBuilder \<Rightarrow> pydict list" where
  "container_environment self = environment_loop [] (environment self)"

text \<open>\<^verbatim>\<open>self.environment['HOME']\<close>: \<^verbatim>\<open>KeyError\<close> when the key is missing.\<close>

definition container_workingdir :: "KubernetesJobBuilder \<Rightarrow> exn + string" where
  "container_workingdir self =
     (case map_of (environment self) ''HOME'' of
        None \<Rightarrow> Inl (KeyError ''HOME'')
      | Some home \<Rightarrow> Inr home)"

definition build :: "KubernetesJobBuilder \<Rightarrow> exn + pyval" where
  "build self =
     (case container_workingdir self of
        Inl e \<Rightarrow> Inl e
      | Inr workingdir \<Rightarrow>
          Inr (Dict
            [(''metadata'', Dict [(''name'', Str (job_name self))]),
             (''apiVersion'', Str ''batch/v1''),
             (''kind'', Str ''Job''),
             (''spec'', Dict
               [(''template'', Dict
                 [(''spec'', Dict
                   [(''containers'', List
                      [Dict
                        [(''name'', Str (container_name self)),
                         (''image'', Str (container_image self)),
                         (''command'', List (map Str (container_command self))),
                         (''args'', List (map Str (container_args self))),
                         (''env'', List (map Dict (container_environment self))),
                         (''volumeMounts'', List (map Dict (job_volume_mounts self))),
                         (''workingDir'', Str workingdir)]]),
                    (''restartPolicy'', Str ''Never''),
                    (''volumes'', List (map Dict (job_volumes self)))])])])]))"

text \<open>The entries of an environment sequence that carry the name \<open>k\<close>.\<close>

definition entries_named :: "string \<Rightarrow> pydict list \<Rightarrow> pydict list" where
  "entries_named k ds = filter (\<lambda>d. map_of d ''name'' = Some (Str k)) ds"

section \<open>CalrissianCommandLineJob: waiting and finishing\<close>

text \<open>
  Of the job object, \<^verbatim>\<open>wait_for_kubernetes_job\<close> and \<^verbatim>\<open>finish\<close> use the output
  directory, the routine \<^verbatim>\<open>collect_outputs\<close> that the workflow engine supplies (it
  returns the outputs or raises) and the Kubernetes client. What \<^verbatim>\<open>client.wait()\<close>
  returns, or the exception it raises, is the field \<open>client_wait\<close>; its type \<open>'t\<close> is
  whatever the client reports of the Job's terminal state. \<^verbatim>\<open>output_callback\<close> belongs
  to the workflow engine: the model records the calls made to it, each with its two
  arguments.
\<close>

record ('o, 't) CalrissianCommandLineJob =
  outdir :: string
  collect_outputs :: "string \<Rightarrow> exn + 'o"
  client_wait :: "exn + 't"

definition wait_for_kubernetes_job :: "('o, 't) CalrissianCommandLineJob \<Rightarrow> exn + unit" where
  "wait_for_kubernetes_job self =
     (case client_wait self of Inl e \<Rightarrow> Inl e | Inr t \<Rightarrow> Inr ())"

definition finish :: "('o, 't) CalrissianCommandLineJob \<Rightarrow> (exn + unit) \<times> ('o \<times> string) list" where
  "finish self =
     (let status = ''success'' in
      case collect_outputs self (outdir self) of
        Inl e \<Rightarrow> (Inl e, [])
      | Inr outputs \<Rightarrow> (Inr (), [(outputs, status)]))"

text \<open>The last two statements of \<^verbatim>\<open>run\<close>: wait for the Job, then finish.\<close>

definition wait_and_finish ::
  "('o, 't) CalrissianCommandLineJob \<Rightarrow> (exn + unit) \<times> ('o \<times> string) list" where
  "wait_and_finish self =
     (case wait_for_kubernetes_job self of
        Inl e \<Rightarrow> (Inl e, [])
      | Inr u \<Rightarrow> finish self)"

text \<open>
  An output collection that raises, as the engine's does when a declared output is
  missing from the output directory.
\<close>

definition raising_collect_outputs :: "string \<Rightarrow> exn + string list" where
  "raising_collect_outputs dir = Inl (WorkflowException (''Did not find output file in '' @ dir))"

section \<open>Strings and dictionaries: basic facts\<close>

lemma startswith_iff: "startswith s p \<longleftrightarrow> (\<exists>t. s = p @ t)"
  by (induction s p rule: startswith.induct) auto

lemma join_empty_concat: "join [] xs = concat xs"
  by (induction "[] :: string" xs rule: join.induct) auto

lemma update_new_key: "k \<notin> fst ` set al \<Longrightarrow> AList.update k v al = al @ [(k, v)]"
  by (induction al) auto

lemma filter_key_distinct:
  "distinct (map fst xs) \<Longrightarrow> map_of xs k = Some v \<Longrightarrow> filter (\<lambda>p. fst p = k) xs = [(k, v)]"
proof (induction xs)
  case Nil
  then show ?case by simp
next
  case (Cons x xs)
  show ?case
  proof (cases "fst x = k")
    case True
    then have "k \<notin> fst ` set xs" using Cons.prems(1) by auto
    then have "filter (\<lambda>p. fst p = k) xs = []" by (auto simp: filter_empty_conv)
    with True Cons.prems(2) show ?thesis by (cases x) auto
  next
    case False
    with Cons show ?thesis by (cases x) auto
  qed
qed

section \<open>The constructor and the registrations\<close>

lemmas builder_eval =
  new_KubernetesVolumeBuilder_def populate_demo_values_def add_persistent_volume_entry_def
  find_persistent_volume_def Let_def

lemma registered_add: "registered (add_persistent_volume_entry self p c) p c"
  by (simp add: registered_def add_persistent_volume_entry_def pv_entry_of_def update_conv')

lemma registered_add_other:
  "q \<noteq> p \<Longrightarrow> registered self p c \<Longrightarrow> registered (add_persistent_volume_entry self q d) p c"
  by (simp add: registered_def add_persistent_volume_entry_def update_conv')

lemma registered_before_add:
  assumes "p \<in> fst ` set (persistent_volume_entries self)"
  shows "registered_before (add_persistent_volume_entry self q d) p = registered_before self p"
  using assms
  by (auto simp: registered_before_def add_persistent_volume_entry_def update_keys)

lemma entries_register_all:
  "distinct (map fst regs) \<Longrightarrow>
   fst ` set regs \<inter> fst ` set (persistent_volume_entries self) = {} \<Longrightarrow>
   persistent_volume_entries (register_all self regs) =
     persistent_volume_entries self @ map (\<lambda>(p, c). (p, pv_entry_of p c)) regs"
proof (induction regs arbitrary: self)
  case Nil
  then show ?case by simp
next
  case (Cons r regs)
  obtain p c where r: "r = (p, c)" by (cases r)
  let ?self = "add_persistent_volume_entry self p c"
  have new: "p \<notin> fst ` set (persistent_volume_entries self)"
    using Cons.prems(2) r by auto
  have ent: "persistent_volume_entries ?self = persistent_volume_entries self @ [(p, pv_entry_of p c)]"
    using update_new_key [OF new] by (simp add: add_persistent_volume_entry_def pv_entry_of_def)
  have "fst ` set regs \<inter> fst ` set (persistent_volume_entries ?self) = {}"
    using Cons.prems r ent by auto
  moreover have "distinct (map fst regs)" using Cons.prems(1) by simp
  ultimately have "persistent_volume_entries (register_all ?self regs) =
     persistent_volume_entries ?self @ map (\<lambda>(p, c). (p, pv_entry_of p c)) regs"
    by (rule Cons.IH [rotated])
  then show ?case by (simp add: r ent)
qed

lemma new_builder_sequences:
  "volumes new_KubernetesVolumeBuilder = []" "volume_mounts new_KubernetesVolumeBuilder = []"
  by (simp_all add: new_KubernetesVolumeBuilder_def)

lemma new_builder_is_registrations:
  "new_KubernetesVolumeBuilder = register_all empty_builder demo_values"
  by (simp add: new_KubernetesVolumeBuilder_def populate_demo_values_def Let_def
      empty_builder_def demo_values_def add_persistent_volume_entry_def)

section \<open>Resolution\<close>

lemma find_in_items_first:
  "map_of items p = Some e \<Longrightarrow> startswith source p \<Longrightarrow>
   \<forall>q \<in> set (takeWhile (\<lambda>q. q \<noteq> p) (map fst items)). \<not> startswith source q \<Longrightarrow>
   find_in_items items source = Some e"
  by (induction items source rule: find_in_items.induct) (auto split: if_splits)

lemma find_in_items_None:
  "find_in_items items source = None \<longleftrightarrow> (\<forall>p \<in> fst ` set items. \<not> startswith source p)"
  by (induction items source rule: find_in_items.induct) auto

lemma find_in_items_map:
  "find_in_items (map (\<lambda>(p, c). (p, pv_entry_of p c)) regs) source =
     map_option (\<lambda>(p, c). pv_entry_of p c) (List.find (\<lambda>(p, c). startswith source p) regs)"
  by (induction regs) auto

lemma add_volume_binding_found:
  "find_persistent_volume self src = Some pv \<Longrightarrow>
     add_volume_binding self b src t n w ch =
       (Inr (), self\<lparr>volumes := volumes self @
                   [AList.update ''name'' (Str (binding_name b n (random_tag 8 ch))) (volume pv)],
                 volume_mounts := volume_mounts self @
                   [[(''name'', Str (binding_name b n (random_tag 8 ch))),
                     (''mountPath'', Str t),
                     (''subPath'', Str (calculate_subpath src (prefix pv))),
                     (''readOnly'', Bool (\<not> w))]]\<rparr>)"
  by (simp add: add_volume_binding_def Let_def)

lemma add_volume_binding_not_found:
  "find_persistent_volume self src = None \<Longrightarrow>
     add_volume_binding self b src t n w ch =
       (Inl (VolumeBuilderException (''Could not find a persistent volume mounted for '' @ src)),
        self)"
  by (simp add: add_volume_binding_def)

lemma add_volume_binding_cases:
  "(\<exists>e. add_volume_binding self b src t n w ch = (Inl e, self)) \<or>
   (\<exists>pv. find_persistent_volume self src = Some pv \<and>
     add_volume_binding self b src t n w ch =
       (Inr (), self\<lparr>volumes := volumes self @
                   [AList.update ''name'' (Str (binding_name b n (random_tag 8 ch))) (volume pv)],
                 volume_mounts := volume_mounts self @
                   [[(''name'', Str (binding_name b n (random_tag 8 ch))),
                     (''mountPath'', Str t),
                     (''subPath'', Str (calculate_subpath src (prefix pv))),
                     (''readOnly'', Bool (\<not> w))]]\<rparr>))"
  by (cases "find_persistent_volume self src")
     (simp_all add: add_volume_binding_not_found add_volume_binding_found)

text \<open>
  C1. On a builder where an entry with prefix \<open>p\<close> and claim name \<open>c\<close> is registered and
  no prefix registered before it is a prefix of the source \<open>p @ s\<close>,
  \<^verbatim>\<open>add_volume_binding\<close> returns, appends one volume and one volume mount and changes
  nothing else; the mount's \<^verbatim>\<open>subPath\<close> is \<open>s\<close> and the volume's
  \<^verbatim>\<open>persistentVolumeClaim.claimName\<close> is \<open>c\<close>.
\<close>

theorem add_volume_binding_resolves_registered:
  assumes "registered self p c"
    and "\<forall>q \<in> set (registered_before self p). \<not> startswith (p @ s) q"
  shows "\<exists>v m. add_volume_binding self base_name (p @ s) target note writable choices =
           (Inr (), self\<lparr>volumes := volumes self @ [v], volume_mounts := volume_mounts self @ [m]\<rparr>)
         \<and> map_of m ''subPath'' = Some (Str s)
         \<and> lookup_path (Dict v) [''persistentVolumeClaim'', ''claimName''] = Some (Str c)"
proof -
  have "startswith (p @ s) p" by (simp add: startswith_iff)
  with assms have found: "find_persistent_volume self (p @ s) = Some (pv_entry_of p c)"
    unfolding find_persistent_volume_def registered_def registered_before_def
    by (intro find_in_items_first) auto
  let ?v = "AList.update ''name'' (Str (binding_name base_name note (random_tag 8 choices)))
              (volume (pv_entry_of p c))"
  let ?m = "[(''name'', Str (binding_name base_name note (random_tag 8 choices))),
             (''mountPath'', Str target),
             (''subPath'', Str (calculate_subpath (p @ s) (prefix (pv_entry_of p c)))),
             (''readOnly'', Bool (\<not> writable))]"
  have 1: "add_volume_binding self base_name (p @ s) target note writable choices =
           (Inr (), self\<lparr>volumes := volumes self @ [?v], volume_mounts := volume_mounts self @ [?m]\<rparr>)"
    by (rule add_volume_binding_found [OF found])
  have 2: "map_of ?m ''subPath'' = Some (Str s)"
    by (simp add: calculate_subpath_def pv_entry_of_def)
  have 3: "lookup_path (Dict ?v) [''persistentVolumeClaim'', ''claimName''] = Some (Str c)"
    by (simp add: pv_entry_of_def)
  from 1 2 3 show ?thesis by blast
qed

theorem add_volume_binding_resolves_registered_witness:
  "registered (add_persistent_volume_entry new_KubernetesVolumeBuilder ''/data'' ''claim-A'')
      ''/data'' ''claim-A''
   \<and> (\<exists>v m. add_volume_binding
               (add_persistent_volume_entry new_KubernetesVolumeBuilder ''/data'' ''claim-A'')
               ''step'' ''/data/sub/file.txt'' ''/inputs/file.txt'' ''vol'' False
               [''q'', ''W'', ''e'', ''R'', ''t'', ''Y'', ''u'', ''I''] =
             (Inr (),
              (add_persistent_volume_entry new_KubernetesVolumeBuilder ''/data'' ''claim-A'')
                \<lparr>volumes := volumes (add_persistent_volume_entry new_KubernetesVolumeBuilder
                                       ''/data'' ''claim-A'') @ [v],
                 volume_mounts := volume_mounts (add_persistent_volume_entry
                                       new_KubernetesVolumeBuilder ''/data'' ''claim-A'') @ [m]\<rparr>)
         \<and> map_of m ''subPath'' = Some (Str ''/sub/file.txt'')
         \<and> lookup_path (Dict v) [''persistentVolumeClaim'', ''claimName''] = Some (Str ''claim-A''))"
proof -
  let ?self = "add_persistent_volume_entry new_KubernetesVolumeBuilder ''/data'' ''claim-A''"
  have r: "registered ?self ''/data'' ''claim-A''"
    by (rule registered_add)
  have b: "\<forall>q \<in> set (registered_before ?self ''/data''). \<not> startswith (''/data'' @ ''/sub/file.txt'') q"
    by (simp add: registered_before_def builder_eval)
  from add_volume_binding_resolves_registered [OF r b, of "''step''" "''/inputs/file.txt''"
      "''vol''" False "[''q'', ''W'', ''e'', ''R'', ''t'', ''Y'', ''u'', ''I'']"] r
  show ?thesis by simp
qed

text \<open>
  C2. \<^verbatim>\<open>add_volume_binding\<close> raises exactly when no key of the registered entries is a
  prefix of the source; what it raises is \<^verbatim>\<open>VolumeBuilderException\<close> with the message
  that names the source, and it leaves the builder, its volumes and volume mounts
  included, as it was.
\<close>

theorem add_volume_binding_raises_iff_unmatched:
  "((\<exists>e. fst (add_volume_binding self base_name source target note writable choices) = Inl e)
      \<longleftrightarrow> (\<forall>p \<in> fst ` set (persistent_volume_entries self). \<not> startswith source p))
   \<and> (\<forall>e. fst (add_volume_binding self base_name source target note writable choices) = Inl e
        \<longrightarrow> e = VolumeBuilderException
                  (''Could not find a persistent volume mounted for '' @ source)
          \<and> snd (add_volume_binding self base_name source target note writable choices) = self
          \<and> volumes (snd (add_volume_binding self base_name source target note writable choices))
              = volumes self
          \<and> volume_mounts (snd (add_volume_binding self base_name source target note writable choices))
              = volume_mounts self)"
  using find_in_items_None [of "persistent_volume_entries self" source]
  by (auto simp: add_volume_binding_def find_persistent_volume_def Let_def split: option.splits)

theorem add_volume_binding_raises_iff_unmatched_witness:
  "add_volume_binding new_KubernetesVolumeBuilder ''step'' ''/other/file.txt''
       ''/inputs/file.txt'' ''vol'' False [''q'', ''W'', ''e'', ''R'', ''t'', ''Y'', ''u'', ''I'']
     = (Inl (VolumeBuilderException
               ''Could not find a persistent volume mounted for /other/file.txt''),
        new_KubernetesVolumeBuilder)
   \<and> fst (add_volume_binding new_KubernetesVolumeBuilder ''step''
            ''/calrissian/input-data/in.txt'' ''/inputs/in.txt'' ''vol'' False
            [''q'', ''W'', ''e'', ''R'', ''t'', ''Y'', ''u'', ''I'']) = Inr ()"
proof -
  let ?draw = "[''q'', ''W'', ''e'', ''R'', ''t'', ''Y'', ''u'', ''I'']"
  let ?bad = "add_volume_binding new_KubernetesVolumeBuilder ''step'' ''/other/file.txt''
       ''/inputs/file.txt'' ''vol'' False ?draw"
  let ?good = "add_volume_binding new_KubernetesVolumeBuilder ''step''
       ''/calrissian/input-data/in.txt'' ''/inputs/in.txt'' ''vol'' False ?draw"
  have none: "\<forall>p \<in> fst ` set (persistent_volume_entries new_KubernetesVolumeBuilder).
                \<not> startswith ''/other/file.txt'' p"
    by (simp add: builder_eval)
  have some: "\<not> (\<forall>p \<in> fst ` set (persistent_volume_entries new_KubernetesVolumeBuilder).
                \<not> startswith ''/calrissian/input-data/in.txt'' p)"
    by (simp add: builder_eval)
  note bad = add_volume_binding_raises_iff_unmatched [of new_KubernetesVolumeBuilder "''step''"
      "''/other/file.txt''" "''/inputs/file.txt''" "''vol''" False ?draw]
  note good = add_volume_binding_raises_iff_unmatched [of new_KubernetesVolumeBuilder "''step''"
      "''/calrissian/input-data/in.txt''" "''/inputs/in.txt''" "''vol''" False ?draw]
  from bad none obtain e where e: "fst ?bad = Inl e" by blast
  with bad have "e = VolumeBuilderException
      (''Could not find a persistent volume mounted for '' @ ''/other/file.txt'')"
    and "snd ?bad = new_KubernetesVolumeBuilder" by blast+
  with e have 1: "?bad = (Inl (VolumeBuilderException
               ''Could not find a persistent volume mounted for /other/file.txt''),
        new_KubernetesVolumeBuilder)"
    by (cases ?bad) simp
  from good some have "\<not> (\<exists>e. fst ?good = Inl e)" by blast
  then have 2: "fst ?good = Inr ()" by (cases "fst ?good") auto
  from 1 2 show ?thesis by blast
qed

text \<open>
  C7. Resolution follows the order of registration, not the length of the match: after
  any sequence of registrations of distinct prefixes on the empty dictionary, the entry
  found for a source is that of the first registration whose prefix is a prefix of the
  source. So with the broad prefix \<^verbatim>\<open>/data\<close> registered before the nested prefix
  \<^verbatim>\<open>/data/sub\<close> on a new builder, \<^verbatim>\<open>/data/sub/file.txt\<close>, which both prefixes match,
  resolves to the broad entry.
\<close>

theorem resolution_first_registered:
  "(\<forall>regs source. distinct (map fst regs) \<longrightarrow>
      find_persistent_volume (register_all empty_builder regs) source =
        map_option (\<lambda>(p, c). pv_entry_of p c)
          (List.find (\<lambda>(p, c). startswith source p) regs))
   \<and> find_persistent_volume
         (add_persistent_volume_entry
            (add_persistent_volume_entry new_KubernetesVolumeBuilder ''/data'' ''broad'')
            ''/data/sub'' ''nested'')
         ''/data/sub/file.txt'' = Some (pv_entry_of ''/data'' ''broad'')
   \<and> startswith ''/data/sub/file.txt'' ''/data/sub''
   \<and> length ''/data'' < length ''/data/sub''"
proof (intro conjI allI impI)
  fix regs :: "(string \<times> string) list" and source
  assume "distinct (map fst regs)"
  then show "find_persistent_volume (register_all empty_builder regs) source =
        map_option (\<lambda>(p, c). pv_entry_of p c)
          (List.find (\<lambda>(p, c). startswith source p) regs)"
    using entries_register_all [of regs empty_builder]
    by (simp add: find_persistent_volume_def find_in_items_map empty_builder_def)
next
  show "find_persistent_volume
         (add_persistent_volume_entry
            (add_persistent_volume_entry new_KubernetesVolumeBuilder ''/data'' ''broad'')
            ''/data/sub'' ''nested'')
         ''/data/sub/file.txt'' = Some (pv_entry_of ''/data'' ''broad'')"
    by (simp add: builder_eval pv_entry_of_def)
qed simp_all

theorem resolution_first_registered_witness:
  "distinct (map fst (demo_values @ [(''/data'', ''broad''), (''/data/sub'', ''nested'')]))
   \<and> find_persistent_volume
       (register_all empty_builder
          (demo_values @ [(''/data'', ''broad''), (''/data/sub'', ''nested'')]))
       ''/data/sub/file.txt'' = Some (pv_entry_of ''/data'' ''broad'')
   \<and> List.find (\<lambda>(p, c). startswith ''/data/sub/file.txt'' p)
        (demo_values @ [(''/data'', ''broad''), (''/data/sub'', ''nested'')])
       = Some (''/data'', ''broad'')"
proof -
  let ?regs = "demo_values @ [(''/data'', ''broad''), (''/data/sub'', ''nested'')]"
  have d: "distinct (map fst ?regs)"
    by (simp add: demo_values_def)
  have f: "List.find (\<lambda>(p, c). startswith ''/data/sub/file.txt'' p) ?regs
             = Some (''/data'', ''broad'')"
    by (simp add: demo_values_def)
  from resolution_first_registered d
  have "find_persistent_volume (register_all empty_builder ?regs) ''/data/sub/file.txt'' =
        map_option (\<lambda>(p, c). pv_entry_of p c)
          (List.find (\<lambda>(p, c). startswith ''/data/sub/file.txt'' p) ?regs)"
    by blast
  with d f show ?thesis by simp
qed

section \<open>The two sequences of a volume builder\<close>

lemma names_aligned_new: "names_aligned new_KubernetesVolumeBuilder"
  by (simp add: names_aligned_def volume_names_def mount_names_def new_KubernetesVolumeBuilder_def)

lemma names_add_persistent_volume_entry:
  "volume_names (add_persistent_volume_entry self p c) = volume_names self"
  "mount_names (add_persistent_volume_entry self p c) = mount_names self"
  by (simp_all add: volume_names_def mount_names_def add_persistent_volume_entry_def)

lemma names_aligned_entry:
  "names_aligned self \<Longrightarrow> names_aligned (add_persistent_volume_entry self p c)"
  unfolding names_aligned_def names_add_persistent_volume_entry .

lemma names_add_volume_binding:
  "snd (add_volume_binding self b src t n w ch) = self \<or>
   (volume_names (snd (add_volume_binding self b src t n w ch))
      = volume_names self @ [Some (Str (binding_name b n (random_tag 8 ch)))]
    \<and> mount_names (snd (add_volume_binding self b src t n w ch))
      = mount_names self @ [Some (Str (binding_name b n (random_tag 8 ch)))])"
  using add_volume_binding_cases [of self b src t n w ch]
  by (auto simp: volume_names_def mount_names_def update_conv')

lemma names_aligned_binding:
  assumes "names_aligned self"
  shows "names_aligned (snd (add_volume_binding self b src t n w ch))"
proof -
  from names_add_volume_binding [of self b src t n w ch] show ?thesis
  proof
    assume "snd (add_volume_binding self b src t n w ch) = self"
    with assms show ?thesis by simp
  next
    assume a: "volume_names (snd (add_volume_binding self b src t n w ch))
        = volume_names self @ [Some (Str (binding_name b n (random_tag 8 ch)))]
      \<and> mount_names (snd (add_volume_binding self b src t n w ch))
        = mount_names self @ [Some (Str (binding_name b n (random_tag 8 ch)))]"
    from assms have "volume_names self = mount_names self" "None \<notin> set (volume_names self)"
      unfolding names_aligned_def by blast+
    with a show ?thesis unfolding names_aligned_def by auto
  qed
qed

lemma builder_state_aligned: "builder_state self \<Longrightarrow> names_aligned self"
  by (induction rule: builder_state.induct)
     (simp_all add: names_aligned_new names_aligned_entry names_aligned_binding)

lemma add_persistent_volume_entry_keeps_sequences:
  "volumes (add_persistent_volume_entry self p c) = volumes self
   \<and> volume_mounts (add_persistent_volume_entry self p c) = volume_mounts self"
  by (simp add: add_persistent_volume_entry_def)

text \<open>
  C10. On every builder that the constructor and the two writing methods produce, a
  call of \<^verbatim>\<open>add_volume_binding\<close> that returns appends exactly one volume and one volume
  mount to what was there, after which the two sequences have the same length and, at
  every index, the volume and the volume mount carry the same name.
\<close>

theorem add_volume_binding_appends_aligned:
  assumes "builder_state self"
    and "add_volume_binding self base_name source target note writable choices = (Inr (), self')"
  shows "\<exists>v m. volumes self' = volumes self @ [v]
             \<and> volume_mounts self' = volume_mounts self @ [m]
             \<and> length (volumes self') = length (volume_mounts self')
             \<and> (\<forall>i < length (volumes self').
                  \<exists>n. map_of (volumes self' ! i) ''name'' = Some n
                    \<and> map_of (volume_mounts self' ! i) ''name'' = Some n)"
proof -
  have st: "builder_state self'"
    using builder_state.binding_added
            [OF assms(1), of base_name source target "note" writable choices] assms(2)
    by simp
  have al: "names_aligned self'" by (rule builder_state_aligned [OF st])
  then have eq: "map (\<lambda>d. map_of d ''name'') (volumes self')
                   = map (\<lambda>d. map_of d ''name'') (volume_mounts self')"
    and some: "None \<notin> set (map (\<lambda>d. map_of d ''name'') (volumes self'))"
    unfolding names_aligned_def volume_names_def mount_names_def by blast+
  have len: "length (volumes self') = length (volume_mounts self')"
    using eq by (metis length_map)
  have nm: "\<forall>i < length (volumes self').
                  \<exists>n. map_of (volumes self' ! i) ''name'' = Some n
                    \<and> map_of (volume_mounts self' ! i) ''name'' = Some n"
  proof (intro allI impI)
    fix i assume i: "i < length (volumes self')"
    have "map (\<lambda>d. map_of d ''name'') (volumes self') ! i
            = map (\<lambda>d. map_of d ''name'') (volume_mounts self') ! i"
      using eq by simp
    then have same: "map_of (volumes self' ! i) ''name'' = map_of (volume_mounts self' ! i) ''name''"
      using i len by simp
    have "map (\<lambda>d. map_of d ''name'') (volumes self') ! i
            \<in> set (map (\<lambda>d. map_of d ''name'') (volumes self'))"
      using i by (intro nth_mem) simp
    with some have "map (\<lambda>d. map_of d ''name'') (volumes self') ! i \<noteq> None"
      by metis
    then have "map_of (volumes self' ! i) ''name'' \<noteq> None"
      using i by simp
    with same show "\<exists>n. map_of (volumes self' ! i) ''name'' = Some n
                    \<and> map_of (volume_mounts self' ! i) ''name'' = Some n" by auto
  qed
  from add_volume_binding_cases [of self base_name source target "note" writable choices] assms(2)
  obtain v m where "volumes self' = volumes self @ [v]"
    and "volume_mounts self' = volume_mounts self @ [m]"
    by auto
  with len nm show ?thesis by blast
qed

theorem add_volume_binding_appends_aligned_witness:
  "builder_state new_KubernetesVolumeBuilder
   \<and> fst (add_volume_binding new_KubernetesVolumeBuilder ''step''
            ''/calrissian/output-data/run'' ''/outputs'' ''outdir'' True
            [''q'', ''W'', ''e'', ''R'', ''t'', ''Y'', ''u'', ''I'']) = Inr ()
   \<and> (\<exists>v m. volumes (snd (add_volume_binding new_KubernetesVolumeBuilder ''step''
                ''/calrissian/output-data/run'' ''/outputs'' ''outdir'' True
                [''q'', ''W'', ''e'', ''R'', ''t'', ''Y'', ''u'', ''I'']))
              = volumes new_KubernetesVolumeBuilder @ [v]
         \<and> volume_mounts (snd (add_volume_binding new_KubernetesVolumeBuilder ''step''
                ''/calrissian/output-data/run'' ''/outputs'' ''outdir'' True
                [''q'', ''W'', ''e'', ''R'', ''t'', ''Y'', ''u'', ''I'']))
              = volume_mounts new_KubernetesVolumeBuilder @ [m]
         \<and> map_of v ''name'' = Some (Str ''step-outdir-qWeRtYuI'')
         \<and> map_of m ''name'' = Some (Str ''step-outdir-qWeRtYuI''))"
proof -
  let ?r = "add_volume_binding new_KubernetesVolumeBuilder ''step''
            ''/calrissian/output-data/run'' ''/outputs'' ''outdir'' True
            [''q'', ''W'', ''e'', ''R'', ''t'', ''Y'', ''u'', ''I'']"
  have found: "find_persistent_volume new_KubernetesVolumeBuilder ''/calrissian/output-data/run''
                 = Some (pv_entry_of ''/calrissian/output-data'' ''calrissian-output-data'')"
    by (simp add: builder_eval pv_entry_of_def)
  note val = add_volume_binding_found [OF found, of "''step''" "''/outputs''" "''outdir''" True
      "[''q'', ''W'', ''e'', ''R'', ''t'', ''Y'', ''u'', ''I'']"]
  have ok: "fst ?r = Inr ()" by (simp add: val)
  then have pair: "?r = (Inr (), snd ?r)" by (cases ?r) simp
  from add_volume_binding_appends_aligned [OF builder_state.constructed pair]
  obtain v m where v: "volumes (snd ?r) = volumes new_KubernetesVolumeBuilder @ [v]"
    and m: "volume_mounts (snd ?r) = volume_mounts new_KubernetesVolumeBuilder @ [m]"
    by blast
  have nv: "map_of v ''name'' = Some (Str ''step-outdir-qWeRtYuI'')"
    using v by (auto simp add: val update_conv' binding_name_def random_tag_def k8s_safe_name_def
        replace_char_def)
  have nmm: "map_of m ''name'' = Some (Str ''step-outdir-qWeRtYuI'')"
    using m by (auto simp add: val binding_name_def random_tag_def k8s_safe_name_def
        replace_char_def)
  from builder_state.constructed ok v m nv nmm show ?thesis by blast
qed

section \<open>Generated names\<close>

lemma k8s_safe_name_no_underscore: "CHR ''_'' \<notin> set (k8s_safe_name n)"
  by (auto simp: k8s_safe_name_def replace_char_def)

lemma generated_names_no_underscore:
  "CHR ''_'' \<notin> set (binding_name base_name note tag)
   \<and> CHR ''_'' \<notin> set (job_name self)
   \<and> CHR ''_'' \<notin> set (container_name self)"
  by (simp add: binding_name_def job_name_def container_name_def k8s_safe_name_no_underscore)

lemma k8s_safe_name_id: "CHR ''_'' \<notin> set s \<Longrightarrow> k8s_safe_name s = s"
  by (induction s) (auto simp: k8s_safe_name_def replace_char_def)

lemma dns1123_subdomain_docstring_example: "dns1123_subdomain ''example.com''"
  by (simp add: dns1123_subdomain_def dns1123_label_def lower_alnum_def ascii_lowercase_def)

lemma letter_not_underscore: "c \<in> set (ascii_uppercase @ ascii_lowercase) \<Longrightarrow> c \<noteq> CHR ''_''"
  by (auto simp: ascii_uppercase_def ascii_lowercase_def)

lemma random_tag_no_underscore:
  assumes "is_random_tag_draw ch"
  shows "CHR ''_'' \<notin> set (random_tag 8 ch)"
proof
  assume "CHR ''_'' \<in> set (random_tag 8 ch)"
  then obtain s where s: "s \<in> set ch" "CHR ''_'' \<in> set s"
    by (auto simp: random_tag_def join_empty_concat)
  from assms s(1) obtain c where "c \<in> set (ascii_uppercase @ ascii_lowercase)" "s = [c]"
    unfolding is_random_tag_draw_def is_choices_def list_all_iff by auto
  with s(2) letter_not_underscore show False by auto
qed

lemma binding_name_tag:
  "is_random_tag_draw ch \<Longrightarrow>
   binding_name b n (random_tag 8 ch) = k8s_safe_name (b @ ''-'' @ n @ ''-'') @ random_tag 8 ch"
  using k8s_safe_name_id [OF random_tag_no_underscore, of ch]
  by (simp add: binding_name_def k8s_safe_name_def replace_char_def)

text \<open>
  C3. The names that the code generates carry no underscore
  (\<open>generated_names_no_underscore\<close>), but they need not match the DNS-1123 pattern of
  the docstring of \<^verbatim>\<open>k8s_safe_name\<close>: \<^verbatim>\<open>random_tag\<close> draws from the upper-case
  letters too and \<^verbatim>\<open>k8s_safe_name\<close> replaces underscores only. With the draw
  \<^verbatim>\<open>ABCDEFGH\<close> the binding for base name \<^verbatim>\<open>step\<close> and note \<^verbatim>\<open>vol\<close> is named
  \<^verbatim>\<open>step-vol-ABCDEFGH\<close>, and the job named \<^verbatim>\<open>Step_1\<close> gets the job name
  \<^verbatim>\<open>Step-1-job\<close> and the container name \<^verbatim>\<open>Step-1-container\<close>; none of them is made
  of lower-case alphanumerics, \<^verbatim>\<open>-\<close> and \<^verbatim>\<open>.\<close> only.
\<close>

theorem generated_names_not_dns1123:
  "is_random_tag_draw [''A'', ''B'', ''C'', ''D'', ''E'', ''F'', ''G'', ''H'']
   \<and> mount_names (snd (add_volume_binding new_KubernetesVolumeBuilder ''step''
         ''/calrissian/input-data/in.txt'' ''/inputs/in.txt'' ''vol'' False
         [''A'', ''B'', ''C'', ''D'', ''E'', ''F'', ''G'', ''H'']))
       = [Some (Str ''step-vol-ABCDEFGH'')]
   \<and> volume_names (snd (add_volume_binding new_KubernetesVolumeBuilder ''step''
         ''/calrissian/input-data/in.txt'' ''/inputs/in.txt'' ''vol'' False
         [''A'', ''B'', ''C'', ''D'', ''E'', ''F'', ''G'', ''H'']))
       = [Some (Str ''step-vol-ABCDEFGH'')]
   \<and> \<not> dns1123_chars ''step-vol-ABCDEFGH''
   \<and> \<not> dns1123_subdomain ''step-vol-ABCDEFGH''
   \<and> job_name \<lparr>name = ''Step_1'', container_image = ''busybox'',
         environment = [(''HOME'', ''/outputs'')], job_volume_mounts = [], job_volumes = [],
         command_line = [''true''], stdout = None, stderr = None, stdin = None\<rparr>
       = ''Step-1-job''
   \<and> container_name \<lparr>name = ''Step_1'', container_image = ''busybox'',
         environment = [(''HOME'', ''/outputs'')], job_volume_mounts = [], job_volumes = [],
         command_line = [''true''], stdout = None, stderr = None, stdin = None\<rparr>
       = ''Step-1-container''
   \<and> \<not> dns1123_chars ''Step-1-job''
   \<and> \<not> dns1123_subdomain ''Step-1-job''
   \<and> \<not> dns1123_chars ''Step-1-container''
   \<and> \<not> dns1123_subdomain ''Step-1-container''"
proof -
  have found: "find_persistent_volume new_KubernetesVolumeBuilder ''/calrissian/input-data/in.txt''
                 = Some (pv_entry_of ''/calrissian/input-data'' ''calrissian-input-data'')"
    by (simp add: builder_eval pv_entry_of_def)
  note val = add_volume_binding_found [OF found, of "''step''" "''/inputs/in.txt''" "''vol''" False
      "[''A'', ''B'', ''C'', ''D'', ''E'', ''F'', ''G'', ''H'']"]
  have 1: "is_random_tag_draw [''A'', ''B'', ''C'', ''D'', ''E'', ''F'', ''G'', ''H'']"
    by (simp add: is_random_tag_draw_def is_choices_def ascii_uppercase_def ascii_lowercase_def)
  have nm: "binding_name ''step'' ''vol''
              (random_tag 8 [''A'', ''B'', ''C'', ''D'', ''E'', ''F'', ''G'', ''H''])
            = ''step-vol-ABCDEFGH''"
    by (simp add: binding_name_def random_tag_def k8s_safe_name_def replace_char_def)
  have 2: "mount_names (snd (add_volume_binding new_KubernetesVolumeBuilder ''step''
         ''/calrissian/input-data/in.txt'' ''/inputs/in.txt'' ''vol'' False
         [''A'', ''B'', ''C'', ''D'', ''E'', ''F'', ''G'', ''H'']))
       = [Some (Str ''step-vol-ABCDEFGH'')]"
    by (simp add: val nm mount_names_def new_builder_sequences)
  have 3: "volume_names (snd (add_volume_binding new_KubernetesVolumeBuilder ''step''
         ''/calrissian/input-data/in.txt'' ''/inputs/in.txt'' ''vol'' False
         [''A'', ''B'', ''C'', ''D'', ''E'', ''F'', ''G'', ''H'']))
       = [Some (Str ''step-vol-ABCDEFGH'')]"
    by (simp add: val nm volume_names_def new_builder_sequences update_conv')
  have 4: "\<not> dns1123_chars ''step-vol-ABCDEFGH''"
    by (simp add: dns1123_chars_def lower_alnum_def ascii_lowercase_def)
  have 5: "\<not> dns1123_subdomain ''step-vol-ABCDEFGH''"
    by (simp add: dns1123_subdomain_def dns1123_label_def lower_alnum_def ascii_lowercase_def)
  have 6: "job_name \<lparr>name = ''Step_1'', container_image = ''busybox'',
         environment = [(''HOME'', ''/outputs'')], job_volume_mounts = [], job_volumes = [],
         command_line = [''true''], stdout = None, stderr = None, stdin = None\<rparr>
       = ''Step-1-job''"
    by (simp add: job_name_def k8s_safe_name_def replace_char_def)
  have 7: "container_name \<lparr>name = ''Step_1'', container_image = ''busybox'',
         environment = [(''HOME'', ''/outputs'')], job_volume_mounts = [], job_volumes = [],
         command_line = [''true''], stdout = None, stderr = None, stdin = None\<rparr>
       = ''Step-1-container''"
    by (simp add: container_name_def k8s_safe_name_def replace_char_def)
  have 8: "\<not> dns1123_chars ''Step-1-job''"
    by (simp add: dns1123_chars_def lower_alnum_def ascii_lowercase_def)
  have 9: "\<not> dns1123_subdomain ''Step-1-job''"
    by (simp add: dns1123_subdomain_def dns1123_label_def lower_alnum_def ascii_lowercase_def)
  have 10: "\<not> dns1123_chars ''Step-1-container''"
    by (simp add: dns1123_chars_def lower_alnum_def ascii_lowercase_def)
  have 11: "\<not> dns1123_subdomain ''Step-1-container''"
    by (simp add: dns1123_subdomain_def dns1123_label_def lower_alnum_def ascii_lowercase_def)
  from 1 2 3 4 5 6 7 8 9 10 11 show ?thesis by blast
qed

section \<open>Names of several bindings\<close>

lemma request_tag_simp: "request_tag (src, tgt, w, ch) = random_tag 8 ch"
  by (simp add: request_tag_def)

lemma add_volume_bindings_names:
  "add_volume_bindings self b n reqs = (Inr (), self') \<Longrightarrow>
     volume_names self' =
       volume_names self @ map (\<lambda>r. Some (Str (binding_name b n (request_tag r)))) reqs
   \<and> mount_names self' =
       mount_names self @ map (\<lambda>r. Some (Str (binding_name b n (request_tag r)))) reqs"
proof (induction reqs arbitrary: self)
  case Nil
  then show ?case by simp
next
  case (Cons r reqs)
  obtain src tgt w ch where r: "r = (src, tgt, w, ch)" by (cases r)
  from add_volume_binding_cases [of self b src tgt n w ch]
  show ?case
  proof (elim disjE exE conjE)
    fix e assume "add_volume_binding self b src tgt n w ch = (Inl e, self)"
    with Cons.prems r show ?thesis by simp
  next
    fix pv :: pv_entry
    assume a: "add_volume_binding self b src tgt n w ch =
       (Inr (), self\<lparr>volumes := volumes self @
                   [AList.update ''name'' (Str (binding_name b n (random_tag 8 ch))) (volume pv)],
                 volume_mounts := volume_mounts self @
                   [[(''name'', Str (binding_name b n (random_tag 8 ch))),
                     (''mountPath'', Str tgt),
                     (''subPath'', Str (calculate_subpath src (prefix pv))),
                     (''readOnly'', Bool (\<not> w))]]\<rparr>)" (is "_ = (_, ?s1)")
    then have "add_volume_bindings ?s1 b n reqs = (Inr (), self')"
      using Cons.prems r by simp
    from Cons.IH [OF this] show ?thesis
      by (simp add: r request_tag_simp volume_names_def mount_names_def update_conv')
  qed
qed

text \<open>
  C9. For bindings requested one after another with one base name and one note, all
  resolved, and with every random draw one that \<^verbatim>\<open>random_tag\<close> can make, the names of
  the volumes appended, and those of the volume mounts, are pairwise distinct exactly when
  the random tags drawn are pairwise distinct; there is one name for each request.
\<close>

theorem binding_names_distinct_iff_tags_distinct:
  assumes ok: "add_volume_bindings self base_name note requests = (Inr (), self')"
    and draws: "\<forall>r \<in> set requests. is_random_tag_draw (request_draw r)"
  shows "(distinct (drop (length (volumes self)) (volume_names self'))
            \<longleftrightarrow> distinct (map request_tag requests))
       \<and> (distinct (drop (length (volume_mounts self)) (mount_names self'))
            \<longleftrightarrow> distinct (map request_tag requests))
       \<and> length (drop (length (volumes self)) (volume_names self')) = length requests
       \<and> length (drop (length (volume_mounts self)) (mount_names self')) = length requests"
proof -
  let ?f = "\<lambda>r. Some (Str (binding_name base_name note (request_tag r)))"
  let ?g = "\<lambda>t. Some (Str (k8s_safe_name (base_name @ ''-'' @ note @ ''-'') @ t))"
  have eq: "map ?f requests = map ?g (map request_tag requests)"
  proof -
    have "?f r = ?g (request_tag r)" if "r \<in> set requests" for r
    proof -
      obtain src tgt w ch where r: "r = (src, tgt, w, ch)" by (cases r)
      with draws that have "is_random_tag_draw ch" by fastforce
      then show ?thesis by (simp add: r request_tag_simp binding_name_tag)
    qed
    then show ?thesis by simp
  qed
  have inj: "inj_on ?g A" for A by (auto simp: inj_on_def)
  have "distinct (map ?g ts) \<longleftrightarrow> distinct ts" for ts
    using inj [of "set ts"] by (simp only: distinct_map simp_thms)
  then have d: "distinct (map ?f requests) \<longleftrightarrow> distinct (map request_tag requests)"
    unfolding eq .
  from add_volume_bindings_names [OF ok]
  have v: "drop (length (volumes self)) (volume_names self') = map ?f requests"
    and m: "drop (length (volume_mounts self)) (mount_names self') = map ?f requests"
    by (simp_all add: volume_names_def mount_names_def)
  show ?thesis unfolding v m using d by simp
qed

theorem binding_names_distinct_iff_tags_distinct_witness:
  "fst (add_volume_bindings new_KubernetesVolumeBuilder ''step'' ''vol''
          [(''/calrissian/input-data/a.txt'', ''/var/lib/cwl/a.txt'', False,
              [''a'', ''a'', ''a'', ''a'', ''a'', ''a'', ''a'', ''a'']),
           (''/calrissian/input-data/b.txt'', ''/var/lib/cwl/b.txt'', False,
              [''a'', ''a'', ''a'', ''a'', ''a'', ''a'', ''a'', ''B''])]) = Inr ()
   \<and> is_random_tag_draw [''a'', ''a'', ''a'', ''a'', ''a'', ''a'', ''a'', ''a'']
   \<and> is_random_tag_draw [''a'', ''a'', ''a'', ''a'', ''a'', ''a'', ''a'', ''B'']
   \<and> distinct (drop (length (volumes new_KubernetesVolumeBuilder))
        (volume_names (snd (add_volume_bindings new_KubernetesVolumeBuilder ''step'' ''vol''
          [(''/calrissian/input-data/a.txt'', ''/var/lib/cwl/a.txt'', False,
              [''a'', ''a'', ''a'', ''a'', ''a'', ''a'', ''a'', ''a'']),
           (''/calrissian/input-data/b.txt'', ''/var/lib/cwl/b.txt'', False,
              [''a'', ''a'', ''a'', ''a'', ''a'', ''a'', ''a'', ''B''])]))))
   \<and> distinct (drop (length (volume_mounts new_KubernetesVolumeBuilder))
        (mount_names (snd (add_volume_bindings new_KubernetesVolumeBuilder ''step'' ''vol''
          [(''/calrissian/input-data/a.txt'', ''/var/lib/cwl/a.txt'', False,
              [''a'', ''a'', ''a'', ''a'', ''a'', ''a'', ''a'', ''a'']),
           (''/calrissian/input-data/b.txt'', ''/var/lib/cwl/b.txt'', False,
              [''a'', ''a'', ''a'', ''a'', ''a'', ''a'', ''a'', ''B''])]))))"
proof -
  let ?d1 = "[''a'', ''a'', ''a'', ''a'', ''a'', ''a'', ''a'', ''a'']"
  let ?d2 = "[''a'', ''a'', ''a'', ''a'', ''a'', ''a'', ''a'', ''B'']"
  let ?reqs = "[(''/calrissian/input-data/a.txt'', ''/var/lib/cwl/a.txt'', False, ?d1),
                (''/calrissian/input-data/b.txt'', ''/var/lib/cwl/b.txt'', False, ?d2)]"
  let ?r = "add_volume_bindings new_KubernetesVolumeBuilder ''step'' ''vol'' ?reqs"
  have ok: "fst ?r = Inr ()"
    by (simp add: add_volume_binding_def builder_eval)
  then have pair: "?r = (Inr (), snd ?r)" by (cases ?r) simp
  have d1: "is_random_tag_draw ?d1"
    by (simp add: is_random_tag_draw_def is_choices_def ascii_uppercase_def ascii_lowercase_def)
  have d2: "is_random_tag_draw ?d2"
    by (simp add: is_random_tag_draw_def is_choices_def ascii_uppercase_def ascii_lowercase_def)
  have draws: "\<forall>r \<in> set ?reqs. is_random_tag_draw (request_draw r)"
    using d1 d2 by simp
  have tags: "distinct (map request_tag ?reqs)"
    by (simp add: request_tag_def random_tag_def)
  from binding_names_distinct_iff_tags_distinct [OF pair draws] tags ok d1 d2
  show ?thesis by blast
qed

text \<open>
  Two bindings of one execution with the same base name and note whose draws coincide:
  both calls return, both draws are ones \<^verbatim>\<open>random_tag\<close> can make, and the two volumes
  carry the same name.
\<close>

theorem binding_names_collide:
  "fst (add_volume_bindings new_KubernetesVolumeBuilder ''step'' ''vol''
          [(''/calrissian/input-data/a.txt'', ''/var/lib/cwl/a.txt'', False,
              [''a'', ''a'', ''a'', ''a'', ''a'', ''a'', ''a'', ''a'']),
           (''/calrissian/input-data/b.txt'', ''/var/lib/cwl/b.txt'', False,
              [''a'', ''a'', ''a'', ''a'', ''a'', ''a'', ''a'', ''a''])]) = Inr ()
   \<and> is_random_tag_draw [''a'', ''a'', ''a'', ''a'', ''a'', ''a'', ''a'', ''a'']
   \<and> volume_names (snd (add_volume_bindings new_KubernetesVolumeBuilder ''step'' ''vol''
          [(''/calrissian/input-data/a.txt'', ''/var/lib/cwl/a.txt'', False,
              [''a'', ''a'', ''a'', ''a'', ''a'', ''a'', ''a'', ''a'']),
           (''/calrissian/input-data/b.txt'', ''/var/lib/cwl/b.txt'', False,
              [''a'', ''a'', ''a'', ''a'', ''a'', ''a'', ''a'', ''a''])]))
       = [Some (Str ''step-vol-aaaaaaaa''), Some (Str ''step-vol-aaaaaaaa'')]
   \<and> mount_names (snd (add_volume_bindings new_KubernetesVolumeBuilder ''step'' ''vol''
          [(''/calrissian/input-data/a.txt'', ''/var/lib/cwl/a.txt'', False,
              [''a'', ''a'', ''a'', ''a'', ''a'', ''a'', ''a'', ''a'']),
           (''/calrissian/input-data/b.txt'', ''/var/lib/cwl/b.txt'', False,
              [''a'', ''a'', ''a'', ''a'', ''a'', ''a'', ''a'', ''a''])]))
       = [Some (Str ''step-vol-aaaaaaaa''), Some (Str ''step-vol-aaaaaaaa'')]
   \<and> \<not> distinct (volume_names (snd (add_volume_bindings new_KubernetesVolumeBuilder
          ''step'' ''vol''
          [(''/calrissian/input-data/a.txt'', ''/var/lib/cwl/a.txt'', False,
              [''a'', ''a'', ''a'', ''a'', ''a'', ''a'', ''a'', ''a'']),
           (''/calrissian/input-data/b.txt'', ''/var/lib/cwl/b.txt'', False,
              [''a'', ''a'', ''a'', ''a'', ''a'', ''a'', ''a'', ''a''])])))"
proof -
  let ?d = "[''a'', ''a'', ''a'', ''a'', ''a'', ''a'', ''a'', ''a'']"
  let ?reqs = "[(''/calrissian/input-data/a.txt'', ''/var/lib/cwl/a.txt'', False, ?d),
                (''/calrissian/input-data/b.txt'', ''/var/lib/cwl/b.txt'', False, ?d)]"
  let ?r = "add_volume_bindings new_KubernetesVolumeBuilder ''step'' ''vol'' ?reqs"
  have ok: "fst ?r = Inr ()"
    by (simp add: add_volume_binding_def builder_eval)
  then have pair: "?r = (Inr (), snd ?r)" by (cases ?r) simp
  have d: "is_random_tag_draw ?d"
    by (simp add: is_random_tag_draw_def is_choices_def ascii_uppercase_def ascii_lowercase_def)
  have nm: "binding_name ''step'' ''vol'' (random_tag 8 ?d) = ''step-vol-aaaaaaaa''"
    by (simp add: binding_name_def random_tag_def k8s_safe_name_def replace_char_def)
  from add_volume_bindings_names [OF pair]
  have v: "volume_names (snd ?r) = [Some (Str ''step-vol-aaaaaaaa''), Some (Str ''step-vol-aaaaaaaa'')]"
    and m: "mount_names (snd ?r) = [Some (Str ''step-vol-aaaaaaaa''), Some (Str ''step-vol-aaaaaaaa'')]"
    by (simp_all add: request_tag_simp nm volume_names_def mount_names_def new_builder_sequences)
  have nd: "\<not> distinct (volume_names (snd ?r))"
    unfolding v by simp
  from ok d v m nd show ?thesis by blast
qed

section \<open>The job builder\<close>

lemma join_snoc: "xs \<noteq> [] \<Longrightarrow> join sep (xs @ [y]) = join sep xs @ sep @ y"
  by (induction sep xs rule: join.induct) auto

lemma environment_loop_map:
  "environment_loop acc items =
     acc @ map (\<lambda>(n, v). [(''name'', Str n), (''value'', Str v)]) items"
  by (induction acc items rule: environment_loop.induct) auto

lemma container_environment_map:
  "container_environment self =
     map (\<lambda>(n, v). [(''name'', Str n), (''value'', Str v)]) (environment self)"
  by (simp add: container_environment_def environment_loop_map)

text \<open>
  C4. The one argument that \<^verbatim>\<open>container_args\<close> builds is the command line's tokens,
  then \<^verbatim>\<open>>\<close> and the stdout target if there is one, then \<^verbatim>\<open>2>\<close> and the stderr target
  if there is one, then \<^verbatim>\<open><\<close> and the stdin target if there is one, joined by single
  spaces; a target that is \<^verbatim>\<open>None\<close> or the empty string adds nothing.
\<close>

theorem container_args_redirection_order:
  "container_args self =
     [join '' '' (command_line self
        @ (if truthy (stdout self) then [''>'', the (stdout self)] else [])
        @ (if truthy (stderr self) then [''2>'', the (stderr self)] else [])
        @ (if truthy (stdin self) then [''<'', the (stdin self)] else []))]"
  by (simp add: container_args_def Let_def)

theorem container_args_redirection_order_witness:
  "container_args \<lparr>name = ''step'', container_image = ''busybox'',
       environment = [(''HOME'', ''/outputs'')], job_volume_mounts = [], job_volumes = [],
       command_line = [''echo'', ''hi''], stdout = Some ''out.txt'', stderr = Some ''err.txt'',
       stdin = None\<rparr> = [''echo hi > out.txt 2> err.txt'']
   \<and> container_args \<lparr>name = ''step'', container_image = ''busybox'',
       environment = [(''HOME'', ''/outputs'')], job_volume_mounts = [], job_volumes = [],
       command_line = [''cat''], stdout = Some ''out.txt'', stderr = Some ''err.txt'',
       stdin = Some ''in.txt''\<rparr> = [''cat > out.txt 2> err.txt < in.txt'']"
  using container_args_redirection_order [of "\<lparr>name = ''step'', container_image = ''busybox'',
       environment = [(''HOME'', ''/outputs'')], job_volume_mounts = [], job_volumes = [],
       command_line = [''echo'', ''hi''], stdout = Some ''out.txt'', stderr = Some ''err.txt'',
       stdin = None\<rparr>"]
    container_args_redirection_order [of "\<lparr>name = ''step'', container_image = ''busybox'',
       environment = [(''HOME'', ''/outputs'')], job_volume_mounts = [], job_volumes = [],
       command_line = [''cat''], stdout = Some ''out.txt'', stderr = Some ''err.txt'',
       stdin = Some ''in.txt''\<rparr>"]
  by simp

text \<open>
  C5. When the environment has the key \<^verbatim>\<open>HOME\<close>, \<^verbatim>\<open>build\<close> returns a manifest whose
  \<^verbatim>\<open>spec.template.spec.restartPolicy\<close> is \<^verbatim>\<open>Never\<close> and whose
  \<^verbatim>\<open>spec.template.spec.containers\<close> is a list of exactly one container, the command of
  which is \<^verbatim>\<open>["/bin/sh", "-c"]\<close>.
\<close>

theorem build_descriptor_invariants:
  assumes "map_of (environment self) ''HOME'' = Some home"
  shows "\<exists>jd c. build self = Inr jd
     \<and> lookup_path jd [''spec'', ''template'', ''spec'', ''restartPolicy''] = Some (Str ''Never'')
     \<and> lookup_path jd [''spec'', ''template'', ''spec'', ''containers''] = Some (List [c])
     \<and> lookup_path c [''command''] = Some (List [Str ''/bin/sh'', Str ''-c''])"
  using assms by (simp add: build_def container_workingdir_def container_command_def)

theorem build_descriptor_invariants_witness:
  "map_of (environment \<lparr>name = ''step'', container_image = ''busybox'',
       environment = [(''HOME'', ''/outputs''), (''TMPDIR'', ''/tmp'')],
       job_volume_mounts = [], job_volumes = [],
       command_line = [''echo'', ''hi''], stdout = Some ''out.txt'', stderr = None,
       stdin = None\<rparr>) ''HOME'' = Some ''/outputs''
   \<and> (\<exists>jd c. build \<lparr>name = ''step'', container_image = ''busybox'',
       environment = [(''HOME'', ''/outputs''), (''TMPDIR'', ''/tmp'')],
       job_volume_mounts = [], job_volumes = [],
       command_line = [''echo'', ''hi''], stdout = Some ''out.txt'', stderr = None,
       stdin = None\<rparr> = Inr jd
     \<and> lookup_path jd [''spec'', ''template'', ''spec'', ''restartPolicy''] = Some (Str ''Never'')
     \<and> lookup_path jd [''spec'', ''template'', ''spec'', ''containers''] = Some (List [c])
     \<and> lookup_path c [''command''] = Some (List [Str ''/bin/sh'', Str ''-c'']))"
proof -
  let ?jb = "\<lparr>name = ''step'', container_image = ''busybox'',
       environment = [(''HOME'', ''/outputs''), (''TMPDIR'', ''/tmp'')],
       job_volume_mounts = [], job_volumes = [],
       command_line = [''echo'', ''hi''], stdout = Some ''out.txt'', stderr = None,
       stdin = None\<rparr>"
  have h: "map_of (environment ?jb) ''HOME'' = Some ''/outputs''" by simp
  from build_descriptor_invariants [OF h] h show ?thesis by blast
qed

text \<open>
  C6. For an environment dictionary (its keys are distinct), the sequence that
  \<^verbatim>\<open>container_environment\<close> builds has, for every key \<open>k\<close> with value \<open>v\<close>, exactly one
  entry named \<open>k\<close>, and that entry is \<^verbatim>\<open>{'name': k, 'value': v}\<close>; every entry of the
  sequence comes from a key of the dictionary, and there are as many entries as keys.
\<close>

theorem container_environment_one_entry_per_key:
  assumes "distinct (map fst (environment self))"
  shows "(\<forall>k v. map_of (environment self) k = Some v \<longrightarrow>
            entries_named k (container_environment self) = [[(''name'', Str k), (''value'', Str v)]])
       \<and> (\<forall>d \<in> set (container_environment self).
            \<exists>k v. map_of (environment self) k = Some v \<and> d = [(''name'', Str k), (''value'', Str v)])
       \<and> length (container_environment self) = card (dom (map_of (environment self)))"
proof (intro conjI allI impI ballI)
  fix k v assume kv: "map_of (environment self) k = Some v"
  have "entries_named k (container_environment self) =
        map (\<lambda>(n, v). [(''name'', Str n), (''value'', Str v)])
          (filter (\<lambda>p. fst p = k) (environment self))"
    unfolding entries_named_def container_environment_map filter_map
    by (rule arg_cong [where f = "map _"], rule filter_cong) (auto simp: o_def)
  then show "entries_named k (container_environment self) = [[(''name'', Str k), (''value'', Str v)]]"
    by (simp add: filter_key_distinct [OF assms kv])
next
  fix d assume "d \<in> set (container_environment self)"
  then obtain k v where "(k, v) \<in> set (environment self)"
    and "d = [(''name'', Str k), (''value'', Str v)]"
    by (auto simp: container_environment_map)
  with assms
  show "\<exists>k v. map_of (environment self) k = Some v \<and> d = [(''name'', Str k), (''value'', Str v)]"
    by auto
next
  have "card (dom (map_of (environment self))) = card (set (map fst (environment self)))"
    by (simp add: dom_map_of_conv_image_fst)
  also have "\<dots> = length (environment self)"
    using assms distinct_card [of "map fst (environment self)"] by simp
  finally show "length (container_environment self) = card (dom (map_of (environment self)))"
    by (simp add: container_environment_map)
qed

theorem container_environment_one_entry_per_key_witness:
  "distinct (map fst (environment \<lparr>name = ''step'', container_image = ''busybox'',
       environment = [(''HOME'', ''/outputs''), (''TMPDIR'', ''/tmp'')],
       job_volume_mounts = [], job_volumes = [],
       command_line = [''echo'', ''hi''], stdout = None, stderr = None, stdin = None\<rparr>))
   \<and> entries_named ''TMPDIR'' (container_environment \<lparr>name = ''step'',
       container_image = ''busybox'',
       environment = [(''HOME'', ''/outputs''), (''TMPDIR'', ''/tmp'')],
       job_volume_mounts = [], job_volumes = [],
       command_line = [''echo'', ''hi''], stdout = None, stderr = None, stdin = None\<rparr>)
     = [[(''name'', Str ''TMPDIR''), (''value'', Str ''/tmp'')]]
   \<and> length (container_environment \<lparr>name = ''step'', container_image = ''busybox'',
       environment = [(''HOME'', ''/outputs''), (''TMPDIR'', ''/tmp'')],
       job_volume_mounts = [], job_volumes = [],
       command_line = [''echo'', ''hi''], stdout = None, stderr = None, stdin = None\<rparr>)
     = card (dom (map_of [(''HOME'', ''/outputs''), (''TMPDIR'', ''/tmp'')]))"
proof -
  let ?jb = "\<lparr>name = ''step'', container_image = ''busybox'',
       environment = [(''HOME'', ''/outputs''), (''TMPDIR'', ''/tmp'')],
       job_volume_mounts = [], job_volumes = [],
       command_line = [''echo'', ''hi''], stdout = None, stderr = None, stdin = None\<rparr>"
  have d: "distinct (map fst (environment ?jb))" by simp
  have kv: "map_of (environment ?jb) ''TMPDIR'' = Some ''/tmp''" by simp
  note main = container_environment_one_entry_per_key [OF d]
  from main kv have 1: "entries_named ''TMPDIR'' (container_environment ?jb)
     = [[(''name'', Str ''TMPDIR''), (''value'', Str ''/tmp'')]]" by blast
  from main have "length (container_environment ?jb) = card (dom (map_of (environment ?jb)))"
    by blast
  then have 2: "length (container_environment ?jb)
     = card (dom (map_of [(''HOME'', ''/outputs''), (''TMPDIR'', ''/tmp'')]))" by simp
  from d 1 2 show ?thesis by blast
qed

section \<open>Finishing\<close>

text \<open>
  C8. \<^verbatim>\<open>finish\<close> calls the completion callback exactly when the collection of the
  outputs returns: then it makes one call, with the outputs collected and the status
  \<^verbatim>\<open>success\<close>, whatever the client reports of the Job's terminal state, and so does
  waiting followed by finishing when the wait returns. When the collection raises, the
  exception leaves \<^verbatim>\<open>finish\<close> and no call is made. No call ever carries another status.
\<close>

theorem finish_reports_success:
  "(\<forall>call \<in> set (snd (finish self)). snd call = ''success'')
   \<and> (\<forall>call \<in> set (snd (wait_and_finish self)). snd call = ''success'')
   \<and> (\<forall>outputs. collect_outputs self (outdir self) = Inr outputs \<longrightarrow>
        finish self = (Inr (), [(outputs, ''success'')])
        \<and> (\<forall>t. client_wait self = Inr t \<longrightarrow>
              wait_and_finish self = (Inr (), [(outputs, ''success'')])))
   \<and> (\<forall>e. collect_outputs self (outdir self) = Inl e \<longrightarrow>
        finish self = (Inl e, [])
        \<and> (\<forall>t. client_wait self = Inr t \<longrightarrow> wait_and_finish self = (Inl e, [])))
   \<and> (snd (finish self) \<noteq> [] \<longleftrightarrow>
        (\<exists>outputs. collect_outputs self (outdir self) = Inr outputs))"
  by (auto simp: finish_def wait_and_finish_def wait_for_kubernetes_job_def Let_def
      split: sum.splits)

theorem finish_reports_success_witness:
  "finish \<lparr>outdir = ''/calrissian/output-data/run'',
           collect_outputs = (\<lambda>d. Inr [d @ ''/out.txt'']),
           client_wait = Inr (''Failed'', 1 :: int)\<rparr>
     = (Inr (), [([''/calrissian/output-data/run/out.txt''], ''success'')])
   \<and> wait_and_finish \<lparr>outdir = ''/calrissian/output-data/run'',
           collect_outputs = (\<lambda>d. Inr [d @ ''/out.txt'']),
           client_wait = Inr (''Failed'', 1 :: int)\<rparr>
     = (Inr (), [([''/calrissian/output-data/run/out.txt''], ''success'')])"
proof -
  let ?job = "\<lparr>outdir = ''/calrissian/output-data/run'',
           collect_outputs = (\<lambda>d. Inr [d @ ''/out.txt'']),
           client_wait = Inr (''Failed'', 1 :: int)\<rparr>
           :: (string list, string \<times> int) CalrissianCommandLineJob"
  have c: "collect_outputs ?job (outdir ?job) = Inr [''/calrissian/output-data/run/out.txt'']"
    by simp
  have w: "client_wait ?job = Inr (''Failed'', 1 :: int)" by simp
  from finish_reports_success [of ?job] c w show ?thesis by blast
qed

text \<open>
  An attempt that reaches \<^verbatim>\<open>finish\<close> after a Job that succeeded, with an output
  collection that raises: \<^verbatim>\<open>finish\<close> ends with the exception and the callback is not
  called, neither with \<^verbatim>\<open>success\<close> nor otherwise.
\<close>

theorem finish_without_callback:
  "finish \<lparr>outdir = ''/calrissian/output-data/run'',
           collect_outputs = raising_collect_outputs,
           client_wait = Inr (''Succeeded'', 0 :: int)\<rparr>
     = (Inl (WorkflowException ''Did not find output file in /calrissian/output-data/run''), [])
   \<and> wait_and_finish \<lparr>outdir = ''/calrissian/output-data/run'',
           collect_outputs = raising_collect_outputs,
           client_wait = Inr (''Succeeded'', 0 :: int)\<rparr>
     = (Inl (WorkflowException ''Did not find output file in /calrissian/output-data/run''), [])
   \<and> snd (finish \<lparr>outdir = ''/calrissian/output-data/run'',
           collect_outputs = raising_collect_outputs,
           client_wait = Inr (''Succeeded'', 0 :: int)\<rparr>) = []"
  by (simp add: finish_def wait_and_finish_def wait_for_kubernetes_job_def Let_def
      raising_collect_outputs_def)

end
